theory Spec2Isabelle
  imports Main "HOL-Library.Word"
begin

unbundle bit_operations_syntax

section \<open>HD44780 character LCD behind an I2C expander (lcd.go)\<close>

text \<open>
  A shallow embedding of \<^verbatim>\<open>lcd.go\<close>. Go's \<^verbatim>\<open>byte\<close> is an 8-bit word and
  \<^verbatim>\<open>uint16\<close> a 16-bit word. Go's \<^verbatim>\<open>int\<close> is modelled by \<open>int\<close>: the program
  only compares such values and adds or subtracts small constants, so no operation on
  them can overflow. A Go \<^verbatim>\<open>string\<close> is a sequence of bytes, here a \<open>string\<close>
  (a list of 8-bit characters); \<^verbatim>\<open>len\<close> and slicing count bytes.
\<close>

type_synonym byte = "8 word"

subsection \<open>Constants\<close>

definition CMD_Clear_Display :: byte where [simp]: "CMD_Clear_Display = 0x01"
definition CMD_Return_Home :: byte where [simp]: "CMD_Return_Home = 0x02"
definition CMD_Entry_Mode :: byte where [simp]: "CMD_Entry_Mode = 0x04"
definition CMD_Display_Control :: byte where [simp]: "CMD_Display_Control = 0x08"
definition CMD_Cursor_Shift :: byte where [simp]: "CMD_Cursor_Shift = 0x10"
definition CMD_Function_Set :: byte where [simp]: "CMD_Function_Set = 0x20"
definition CMD_CGRAM_Set :: byte where [simp]: "CMD_CGRAM_Set = 0x40"
definition CMD_DDRAM_Set :: byte where [simp]: "CMD_DDRAM_Set = 0x80"

definition OPT_EntryLeft :: byte where [simp]: "OPT_EntryLeft = 0x02"
definition OPT_Enable_Display :: byte where [simp]: "OPT_Enable_Display = 0x04"
definition OPT_Disable_Cursor :: byte where [simp]: "OPT_Disable_Cursor = 0x00"
definition OPT_Enable_Cursor :: byte where [simp]: "OPT_Enable_Cursor = 0x02"
definition OPT_Disable_Blink :: byte where [simp]: "OPT_Disable_Blink = 0x00"
definition OPT_Enable_Blink :: byte where [simp]: "OPT_Enable_Blink = 0x01"
definition OPT_Display_Move :: byte where [simp]: "OPT_Display_Move = 0x08"
definition OPT_Move_Right :: byte where [simp]: "OPT_Move_Right = 0x04"
definition OPT_Move_Left :: byte where [simp]: "OPT_Move_Left = 0x00"
definition OPT_4Bit_Mode :: byte where [simp]: "OPT_4Bit_Mode = 0x00"
definition OPT_2_Lines :: byte where [simp]: "OPT_2_Lines = 0x08"
definition OPT_5x8_Dots :: byte where [simp]: "OPT_5x8_Dots = 0x00"

definition PIN_BACKLIGHT :: byte where [simp]: "PIN_BACKLIGHT = 0x08"
definition PIN_EN :: byte where [simp]: "PIN_EN = 0x04"
definition PIN_RW :: byte where [simp]: "PIN_RW = 0x02"
definition PIN_RS :: byte where [simp]: "PIN_RS = 0x01"

text \<open>\<^verbatim>\<open>type LcdType int\<close> with the constants numbered by \<^verbatim>\<open>iota\<close>.\<close>

type_synonym LcdType = int

definition LCD_UNKNOWN :: LcdType where [simp]: "LCD_UNKNOWN = 0"
definition LCD_16x2 :: LcdType where [simp]: "LCD_16x2 = 1"
definition LCD_20x4 :: LcdType where [simp]: "LCD_20x4 = 2"

text \<open>
  \<^verbatim>\<open>type ShowOptions int\<close>. \<^verbatim>\<open>SHOW_LINE_1\<close> is the second constant of its block,
  so \<^verbatim>\<open>1 << iota\<close> starts at \<open>2\<close>.
\<close>

type_synonym ShowOptions = int

definition SHOW_NO_OPTIONS :: ShowOptions where [simp]: "SHOW_NO_OPTIONS = 0"
definition SHOW_LINE_1 :: ShowOptions where [simp]: "SHOW_LINE_1 = 2"
definition SHOW_LINE_2 :: ShowOptions where [simp]: "SHOW_LINE_2 = 4"
definition SHOW_LINE_3 :: ShowOptions where [simp]: "SHOW_LINE_3 = 8"
definition SHOW_LINE_4 :: ShowOptions where [simp]: "SHOW_LINE_4 = 16"
definition SHOW_ELIPSE_IF_NOT_FIT :: ShowOptions where [simp]: "SHOW_ELIPSE_IF_NOT_FIT = 32"
definition SHOW_BLANK_PADDING :: ShowOptions where [simp]: "SHOW_BLANK_PADDING = 64"

text \<open>\<^verbatim>\<open>time.Duration\<close> counts nanoseconds.\<close>

definition Nanosecond :: nat where [simp]: "Nanosecond = 1"
definition Microsecond :: nat where [simp]: "Microsecond = 1000"
definition Millisecond :: nat where [simp]: "Millisecond = 1000000"

subsection \<open>Errors and panics\<close>

text \<open>
  The values of Go's \<^verbatim>\<open>error\<close> that the program returns: the error of the transport,
  passed on as it is, and the two messages built by \<^verbatim>\<open>fmt.Errorf\<close> in
  \<^verbatim>\<open>SetPosition\<close>, each kept with its two \<^verbatim>\<open>%d\<close> arguments:
  \<open>PositionRange pos hi\<close> is "Cursor position pos must be within the range [0..hi]" and
  \<open>LineRange line hi\<close> is "Cursor line line must be within the range [0..hi]".
  \<open>None\<close> is \<^verbatim>\<open>nil\<close>.
\<close>

datatype error = TransportError | PositionRange int int | LineRange int int

text \<open>
  A run-time panic of Go ends the call without a result: an index outside a slice
  (\<open>IndexOutOfRange i n\<close>: index \<open>i\<close>, length \<open>n\<close>), a slice bound outside a string,
  a negative count given to \<^verbatim>\<open>strings.Repeat\<close>.
\<close>

datatype panic = IndexOutOfRange int nat | SliceOutOfRange int nat | NegativeRepeat int

datatype 'a res = Return 'a | Panic panic

definition index :: "'a list \<Rightarrow> int \<Rightarrow> 'a res" where
  "index xs i =
     (if 0 \<le> i \<and> i < int (length xs) then Return (xs ! nat i)
      else Panic (IndexOutOfRange i (length xs)))"

definition slice_to :: "string \<Rightarrow> int \<Rightarrow> string res" where
  "slice_to s hi =
     (if 0 \<le> hi \<and> hi \<le> int (length s) then Return (take (nat hi) s)
      else Panic (SliceOutOfRange hi (length s)))"

definition slice_from :: "string \<Rightarrow> int \<Rightarrow> string res" where
  "slice_from s lo =
     (if 0 \<le> lo \<and> lo \<le> int (length s) then Return (drop (nat lo) s)
      else Panic (SliceOutOfRange lo (length s)))"

definition Repeat :: "string \<Rightarrow> int \<Rightarrow> string res" where
  "Repeat s count =
     (if count < 0 then Panic (NegativeRepeat count)
      else Return (concat (replicate (nat count) s)))"

subsection \<open>The transport and the session\<close>

text \<open>
  Modelled from the spec: the I2C transport (package \<^verbatim>\<open>github.com/d2r2/go-i2c\<close>, not
  part of the repository), a byte sink \<^verbatim>\<open>write(bytes) -> (count, error)\<close> applied in
  call order. The bus keeps what happened on it, in order: a write it accepted, a write
  it refused with an error, and the sleeps of the calling code between them. Whether a
  write is refused is up to the bus: \<open>failing\<close> decides it from the history and the
  bytes offered. The byte count \<^verbatim>\<open>WriteBytes\<close> also returns is discarded by its only
  caller and is left out.
\<close>

datatype event = Wrote "byte list" | Refused "byte list" | Slept nat

record I2C =
  trace :: "event list"
  failing :: "event list \<Rightarrow> byte list \<Rightarrow> bool"

definition WriteBytes :: "I2C \<Rightarrow> byte list \<Rightarrow> error option \<times> I2C" where
  "WriteBytes bus buf =
     (if failing bus (trace bus) buf
      then (Some TransportError, bus\<lparr>trace := trace bus @ [Refused buf]\<rparr>)
      else (None, bus\<lparr>trace := trace bus @ [Wrote buf]\<rparr>))"

record Lcd =
  i2c :: I2C
  backlight :: bool
  lcdType :: LcdType
  writeStrobeDelay :: "16 word"
  resetStrobeDelay :: "16 word"
  active :: bool
  displayFunction :: byte
  displayControl :: byte
  displayMode :: byte

text \<open>\<^verbatim>\<open>time.Sleep(d)\<close>, recorded on the timeline of the session's bus.\<close>

definition Sleep :: "nat \<Rightarrow> Lcd \<Rightarrow> Lcd" where
  "Sleep d lcd = lcd\<lparr>i2c := (i2c lcd)\<lparr>trace := trace (i2c lcd) @ [Slept d]\<rparr>\<rparr>"

record rawData =
  Data :: byte
  Delay :: nat

subsection \<open>Protocol encoder\<close>

fun writeRawDataSeq :: "Lcd \<Rightarrow> rawData list \<Rightarrow> error option \<times> Lcd" where
  "writeRawDataSeq lcd [] = (None, lcd)"
| "writeRawDataSeq lcd (item # seq) =
     (case WriteBytes (i2c lcd) [Data item] of
        (Some err, bus) \<Rightarrow> (Some err, lcd\<lparr>i2c := bus\<rparr>)
      | (None, bus) \<Rightarrow> writeRawDataSeq (Sleep (Delay item) (lcd\<lparr>i2c := bus\<rparr>)) seq)"

definition writeDataWithStrobe :: "Lcd \<Rightarrow> byte \<Rightarrow> error option \<times> Lcd" where
  "writeDataWithStrobe lcd data0 =
     (let data = (if backlight lcd then data0 OR PIN_BACKLIGHT else data0);
          seq = [\<lparr>Data = data, Delay = 50 * 1000 * Nanosecond\<rparr>,
                 \<lparr>Data = data OR PIN_EN, Delay = unat (writeStrobeDelay lcd) * Microsecond\<rparr>,
                 \<lparr>Data = data, Delay = unat (resetStrobeDelay lcd) * Microsecond\<rparr>]
      in writeRawDataSeq lcd seq)"

definition writeByte :: "Lcd \<Rightarrow> byte \<Rightarrow> byte \<Rightarrow> error option \<times> Lcd" where
  "writeByte lcd data controlPins =
     (case writeDataWithStrobe lcd ((data AND 0xF0) OR controlPins) of
        (Some err, lcd1) \<Rightarrow> (Some err, lcd1)
      | (None, lcd1) \<Rightarrow>
          (case writeDataWithStrobe lcd1 ((push_bit 4 data AND 0xF0) OR controlPins) of
             (Some err, lcd2) \<Rightarrow> (Some err, lcd2)
           | (None, lcd2) \<Rightarrow> (None, lcd2)))"

text \<open>
  The composite operations. Each changes its register snapshot first, then transmits
  the command, then sleeps, and returns what the transmission returned.
\<close>

definition BacklightOn :: "Lcd \<Rightarrow> error option \<times> Lcd" where
  "BacklightOn lcd = writeByte (lcd\<lparr>backlight := True\<rparr>) 0x00 0"

definition BacklightOff :: "Lcd \<Rightarrow> error option \<times> Lcd" where
  "BacklightOff lcd = writeByte (lcd\<lparr>backlight := False\<rparr>) 0x00 0"

definition Clear :: "Lcd \<Rightarrow> error option \<times> Lcd" where
  "Clear lcd =
     (case writeByte lcd CMD_Clear_Display 0 of
        (err, lcd1) \<Rightarrow> (err, Sleep (2 * Millisecond) lcd1))"

definition Home :: "Lcd \<Rightarrow> error option \<times> Lcd" where
  "Home lcd =
     (case writeByte lcd CMD_Return_Home 0 of
        (err, lcd1) \<Rightarrow> (err, Sleep (2 * Millisecond) lcd1))"

definition DisplayOn :: "Lcd \<Rightarrow> error option \<times> Lcd" where
  "DisplayOn lcd0 =
     (let lcd = lcd0\<lparr>displayControl := displayControl lcd0 OR OPT_Enable_Display\<rparr>
      in case writeByte lcd (CMD_Display_Control OR displayControl lcd) 0 of
           (err, lcd1) \<Rightarrow> (err, Sleep (2 * Millisecond) lcd1))"

definition DisplayOff :: "Lcd \<Rightarrow> error option \<times> Lcd" where
  "DisplayOff lcd0 =
     (let lcd = lcd0\<lparr>displayControl := displayControl lcd0 AND NOT OPT_Enable_Display\<rparr>
      in case writeByte lcd (CMD_Display_Control OR displayControl lcd) 0 of
           (err, lcd1) \<Rightarrow> (err, Sleep (2 * Millisecond) lcd1))"

definition BlinkOn :: "Lcd \<Rightarrow> error option \<times> Lcd" where
  "BlinkOn lcd0 =
     (let lcd = lcd0\<lparr>displayControl := displayControl lcd0 OR OPT_Enable_Blink\<rparr>
      in case writeByte lcd (CMD_Display_Control OR displayControl lcd) 0 of
           (err, lcd1) \<Rightarrow> (err, Sleep (2 * Millisecond) lcd1))"

definition BlinkOff :: "Lcd \<Rightarrow> error option \<times> Lcd" where
  "BlinkOff lcd0 =
     (let lcd = lcd0\<lparr>displayControl := displayControl lcd0 AND NOT OPT_Enable_Blink\<rparr>
      in case writeByte lcd (CMD_Display_Control OR displayControl lcd) 0 of
           (err, lcd1) \<Rightarrow> (err, Sleep (2 * Millisecond) lcd1))"

definition CursorOn :: "Lcd \<Rightarrow> error option \<times> Lcd" where
  "CursorOn lcd0 =
     (let lcd = lcd0\<lparr>displayControl := displayControl lcd0 OR OPT_Enable_Cursor\<rparr>
      in case writeByte lcd (CMD_Display_Control OR displayControl lcd) 0 of
           (err, lcd1) \<Rightarrow> (err, Sleep (2 * Millisecond) lcd1))"

definition CursorOff :: "Lcd \<Rightarrow> error option \<times> Lcd" where
  "CursorOff lcd0 =
     (let lcd = lcd0\<lparr>displayControl := displayControl lcd0 AND NOT OPT_Enable_Cursor\<rparr>
      in case writeByte lcd (CMD_Display_Control OR displayControl lcd) 0 of
           (err, lcd1) \<Rightarrow> (err, Sleep (2 * Millisecond) lcd1))"

definition LeftRightDisplay :: "Lcd \<Rightarrow> error option \<times> Lcd" where
  "LeftRightDisplay lcd0 =
     (let lcd = lcd0\<lparr>displayMode := displayMode lcd0 OR OPT_EntryLeft\<rparr>
      in case writeByte lcd (CMD_Entry_Mode OR displayMode lcd) 0 of
           (err, lcd1) \<Rightarrow> (err, Sleep (2 * Millisecond) lcd1))"

definition RightLeftDisplay :: "Lcd \<Rightarrow> error option \<times> Lcd" where
  "RightLeftDisplay lcd0 =
     (let lcd = lcd0\<lparr>displayMode := displayMode lcd0 AND NOT OPT_EntryLeft\<rparr>
      in case writeByte lcd (CMD_Entry_Mode OR displayMode lcd) 0 of
           (err, lcd1) \<Rightarrow> (err, Sleep (2 * Millisecond) lcd1))"

definition SetStrobeDelays :: "Lcd \<Rightarrow> 16 word \<Rightarrow> 16 word \<Rightarrow> Lcd" where
  "SetStrobeDelays lcd writeDelay resetDelay =
     lcd\<lparr>writeStrobeDelay := writeDelay, resetStrobeDelay := resetDelay\<rparr>"

subsection \<open>Geometry and cursor position\<close>

definition getSize :: "Lcd \<Rightarrow> int \<times> int" where
  "getSize lcd =
     (if lcdType lcd = LCD_16x2 then (16, 2)
      else if lcdType lcd = LCD_20x4 then (20, 4)
      else (-1, -1))"

definition lineOffset :: "byte list" where
  "lineOffset = [0x00, 0x40, 0x14, 0x54]"

text \<open>
  A call either returns an \<^verbatim>\<open>error\<close> (\<open>Return None\<close> for \<^verbatim>\<open>nil\<close>) or panics; the
  session is returned as the call left it in both cases.
\<close>

definition SetPosition :: "Lcd \<Rightarrow> int \<Rightarrow> int \<Rightarrow> error option res \<times> Lcd" where
  "SetPosition lcd line pos =
     (if \<not> active lcd then (Return None, lcd)
      else case getSize lcd of (w, h) \<Rightarrow>
        if w \<noteq> -1 \<and> (pos < 0 \<or> pos > w - 1) then (Return (Some (PositionRange pos (w - 1))), lcd)
        else if h \<noteq> -1 \<and> (line < 0 \<or> line > h - 1) then (Return (Some (LineRange line (h - 1))), lcd)
        else (case index lineOffset line of
                Panic p \<Rightarrow> (Panic p, lcd)
              | Return off \<Rightarrow>
                  (case writeByte lcd (CMD_DDRAM_Set + off + word_of_int pos) 0 of
                     (err, lcd1) \<Rightarrow> (Return err, lcd1))))"

subsection \<open>Text layout\<close>

text \<open>
  The two loops of \<^verbatim>\<open>getLineRange\<close> over the array \<^verbatim>\<open>lines\<close> of four flags. The
  first counts up from \<open>0\<close>, the second down from \<^verbatim>\<open>len(lines) - 1\<close>; both stop at
  the first set flag, and their bounds keep the index inside the array.
\<close>

function startLoop :: "bool list \<Rightarrow> int \<Rightarrow> int \<Rightarrow> int" where
  "startLoop lines i startLine =
     (if i < int (length lines) then
        (if lines ! nat i then i else startLoop lines (i + 1) startLine)
      else startLine)"
  by pat_completeness auto
termination
  by (relation "measure (\<lambda>(lines, i, startLine). nat (int (length lines) - i))") auto

function endLoop :: "bool list \<Rightarrow> int \<Rightarrow> int \<Rightarrow> int" where
  "endLoop lines i endLine =
     (if i \<ge> 0 then
        (if lines ! nat i then i else endLoop lines (i - 1) endLine)
      else endLine)"
  by pat_completeness auto
termination
  by (relation "measure (\<lambda>(lines, i, endLine). nat (i + 1))") auto

definition getLineRange :: "Lcd \<Rightarrow> ShowOptions \<Rightarrow> int \<times> int" where
  "getLineRange lcd options =
     (let lines = [options AND SHOW_LINE_1 \<noteq> 0,
                   options AND SHOW_LINE_2 \<noteq> 0,
                   options AND SHOW_LINE_3 \<noteq> 0,
                   options AND SHOW_LINE_4 \<noteq> 0];
          startLine = startLoop lines 0 (-1);
          endLine = endLoop lines (int (length lines) - 1) (-1)
      in (startLine, endLine))"

text \<open>
  The first loop of \<^verbatim>\<open>splitText\<close>, with \<open>n\<close> for \<^verbatim>\<open>endLine-startLine\<close>: it returns
  the text left over and the segments.
\<close>

function splitLoop :: "int \<Rightarrow> int \<Rightarrow> int \<Rightarrow> string \<Rightarrow> string list \<Rightarrow> (string \<times> string list) res" where
  "splitLoop i n w text lines =
     (if i \<le> n then
        (if length text = 0 then Return (text, lines)
         else
           (let j = (if w > int (length text) then int (length text) else w)
            in (case slice_to text j of
                  Panic p \<Rightarrow> Panic p
                | Return seg \<Rightarrow>
                    (case slice_from text j of
                       Panic p \<Rightarrow> Panic p
                     | Return rest \<Rightarrow> splitLoop (i + 1) n w rest (lines @ [seg])))))
      else Return (text, lines))"
  by pat_completeness auto
termination
  by (relation "measure (\<lambda>(i, n, w, text, lines). nat (n + 1 - i))") auto

text \<open>The loop that appends the blank lines, from \<^verbatim>\<open>k := j + 1\<close>.\<close>

function padLoop :: "int \<Rightarrow> int \<Rightarrow> int \<Rightarrow> string list \<Rightarrow> string list res" where
  "padLoop k n w lines =
     (if k \<le> n then
        (case Repeat '' '' w of
           Panic p \<Rightarrow> Panic p
         | Return blank \<Rightarrow> padLoop (k + 1) n w (lines @ [blank]))
      else Return lines)"
  by pat_completeness auto
termination
  by (relation "measure (\<lambda>(k, n, w, lines). nat (n + 1 - k))") auto

text \<open>
  The branch of \<^verbatim>\<open>splitText\<close> taken when the width and both ends of the line range
  are known, over the local variables \<^verbatim>\<open>w\<close>, \<^verbatim>\<open>startLine\<close> and \<^verbatim>\<open>endLine\<close>;
  \<^verbatim>\<open>lines\<close> is still empty when it is entered.
\<close>

definition splitWithin :: "int \<Rightarrow> int \<Rightarrow> int \<Rightarrow> string \<Rightarrow> ShowOptions \<Rightarrow> string list res" where
  "splitWithin w startLine endLine text0 options =
     (case splitLoop 0 (endLine - startLine) w text0 [] of
        Panic p \<Rightarrow> Panic p
      | Return (text, lines) \<Rightarrow>
          if length text > 0 then
            (if options AND SHOW_ELIPSE_IF_NOT_FIT \<noteq> 0 then
               (let j = int (length lines) - 1
                in (case index lines j of
                      Panic p \<Rightarrow> Panic p
                    | Return l \<Rightarrow>
                        (case slice_to l (int (length l) - 1) of
                           Panic p \<Rightarrow> Panic p
                         | Return front \<Rightarrow> Return (lines[nat j := front @ ''~'']))))
             else Return lines)
          else
            (if options AND SHOW_BLANK_PADDING \<noteq> 0 then
               (let j = int (length lines) - 1
                in (case index lines j of
                      Panic p \<Rightarrow> Panic p
                    | Return l \<Rightarrow>
                        (case Repeat '' '' (w - int (length l)) of
                           Panic p \<Rightarrow> Panic p
                         | Return blanks \<Rightarrow>
                             padLoop (j + 1) (endLine - startLine) w (lines[nat j := l @ blanks]))))
             else Return lines))"

definition splitText :: "Lcd \<Rightarrow> string \<Rightarrow> ShowOptions \<Rightarrow> string list res" where
  "splitText lcd text options =
     (case getLineRange lcd options of (startLine, endLine) \<Rightarrow>
        (case getSize lcd of (w, h) \<Rightarrow>
           if w \<noteq> -1 \<and> startLine \<noteq> -1 \<and> endLine \<noteq> -1
           then splitWithin w startLine endLine text options
           else if length text > 0 then Return [text]
           else Return []))"

subsection \<open>Showing text\<close>

text \<open>
  \<^verbatim>\<open>for _, c := range line\<close> walks a Go string by code point, not by byte: it decodes
  UTF-8, and a byte that starts no valid encoding counts as the one-byte code point
  \<^verbatim>\<open>0xFFFD\<close>. \<open>decodeRune\<close> decodes the first code point of a non-empty byte
  sequence and gives its width; \<open>runes\<close> is the sequence the loop sees.
\<close>

definition RuneError :: int where [simp]: "RuneError = 0xFFFD"

definition decodeRune :: "nat list \<Rightarrow> int \<times> nat" where
  "decodeRune p =
     (let n = length p; p0 = p ! 0 in
      if p0 < 0x80 then (int p0, 1)
      else if p0 < 0xC2 \<or> 0xF4 < p0 then (RuneError, 1)
      else
        (let sz = (if p0 < 0xE0 then 2 else if p0 < 0xF0 then 3 else 4);
             lo = (if p0 = 0xE0 then 0xA0 else if p0 = 0xF0 then 0x90 else 0x80);
             hi = (if p0 = 0xED then 0x9F else if p0 = 0xF4 then 0x8F else 0xBF)
         in if n < sz then (RuneError, 1)
            else
              (let b1 = p ! 1 in
               if b1 < lo \<or> hi < b1 then (RuneError, 1)
               else if sz \<le> 2 then (int (p0 mod 32 * 64 + b1 mod 64), 2)
               else
                 (let b2 = p ! 2 in
                  if b2 < 0x80 \<or> 0xBF < b2 then (RuneError, 1)
                  else if sz \<le> 3 then (int (p0 mod 16 * 4096 + b1 mod 64 * 64 + b2 mod 64), 3)
                  else
                    (let b3 = p ! 3 in
                     if b3 < 0x80 \<or> 0xBF < b3 then (RuneError, 1)
                     else (int (p0 mod 8 * 262144 + b1 mod 64 * 4096 + b2 mod 64 * 64 + b3 mod 64), 4))))))"

function runes :: "string \<Rightarrow> int list" where
  "runes s =
     (if s = [] then []
      else (case decodeRune (map of_char s) of (r, sz) \<Rightarrow> r # runes (drop sz s)))"
  by pat_completeness auto
termination
  by (relation "measure length") (auto simp: decodeRune_def Let_def split: if_splits)


text \<open>The inner loop of \<^verbatim>\<open>ShowMessage\<close>: one data byte \<^verbatim>\<open>byte(c)\<close> per code point.\<close>

fun writeRunes :: "Lcd \<Rightarrow> int list \<Rightarrow> error option \<times> Lcd" where
  "writeRunes lcd [] = (None, lcd)"
| "writeRunes lcd (c # cs) =
     (case writeByte lcd (word_of_int c) PIN_RS of
        (Some err, lcd1) \<Rightarrow> (Some err, lcd1)
      | (None, lcd1) \<Rightarrow> writeRunes lcd1 cs)"

text \<open>
  The outer loop of \<^verbatim>\<open>ShowMessage\<close>, \<^verbatim>\<open>for { ... }\<close> with its counter \<^verbatim>\<open>i\<close>. It is
  left at \<^verbatim>\<open>i == len(lines)-1\<close>, by an error, or by the panic of \<^verbatim>\<open>lines[i]\<close>.
  The debug log line of \<^verbatim>\<open>ShowMessage\<close> has no effect on the session and is left out.
\<close>

function showLoop :: "Lcd \<Rightarrow> string list \<Rightarrow> int \<Rightarrow> int \<Rightarrow> int \<Rightarrow> error option res \<times> Lcd" where
  "showLoop lcd lines startLine endLine i =
     (case (if startLine \<noteq> -1 \<and> endLine \<noteq> -1 then SetPosition lcd (i + startLine) 0
            else (Return None, lcd)) of
        (Panic p, lcd1) \<Rightarrow> (Panic p, lcd1)
      | (Return (Some err), lcd1) \<Rightarrow> (Return (Some err), lcd1)
      | (Return None, lcd1) \<Rightarrow>
          (case index lines i of
             Panic p \<Rightarrow> (Panic p, lcd1)
           | Return line \<Rightarrow>
               (case writeRunes lcd1 (runes line) of
                  (Some err, lcd2) \<Rightarrow> (Return (Some err), lcd2)
                | (None, lcd2) \<Rightarrow>
                    if i = int (length lines) - 1 then (Return None, lcd2)
                    else showLoop lcd2 lines startLine endLine (i + 1))))"
  by pat_completeness auto
termination
  by (relation "measure (\<lambda>(lcd, lines, startLine, endLine, i). nat (int (length lines) - i))")
     (auto simp: index_def split: if_splits)

definition ShowMessage :: "Lcd \<Rightarrow> string \<Rightarrow> ShowOptions \<Rightarrow> error option res \<times> Lcd" where
  "ShowMessage lcd text options =
     (if \<not> active lcd then (Return None, lcd)
      else
        (case splitText lcd text options of
           Panic p \<Rightarrow> (Panic p, lcd)
         | Return lines \<Rightarrow>
             (case getLineRange lcd options of
                (startLine, endLine) \<Rightarrow> showLoop lcd lines startLine endLine 0)))"

subsection \<open>Fill and Shutdown\<close>

function fillCols :: "Lcd \<Rightarrow> int \<Rightarrow> int \<Rightarrow> int \<Rightarrow> error option \<times> Lcd" where
  "fillCols lcd char colCount width =
     (if colCount < width then
        (case writeByte lcd (word_of_int char) PIN_RS of
           (Some err, lcd1) \<Rightarrow> (Some err, lcd1)
         | (None, lcd1) \<Rightarrow> fillCols lcd1 char (colCount + 1) width)
      else (None, lcd))"
  by pat_completeness auto
termination
  by (relation "measure (\<lambda>(lcd, char, colCount, width). nat (width - colCount))") auto

function fillLines :: "Lcd \<Rightarrow> int \<Rightarrow> int \<Rightarrow> int \<Rightarrow> int \<Rightarrow> error option res \<times> Lcd" where
  "fillLines lcd char lineCount width height =
     (if lineCount < height then
        (case SetPosition lcd lineCount 0 of
           (Panic p, lcd1) \<Rightarrow> (Panic p, lcd1)
         | (Return (Some err), lcd1) \<Rightarrow> (Return (Some err), lcd1)
         | (Return None, lcd1) \<Rightarrow>
             (case fillCols lcd1 char 0 width of
                (Some err, lcd2) \<Rightarrow> (Return (Some err), lcd2)
              | (None, lcd2) \<Rightarrow> fillLines lcd2 char (lineCount + 1) width height))
      else (Return None, lcd))"
  by pat_completeness auto
termination
  by (relation "measure (\<lambda>(lcd, char, lineCount, width, height). nat (height - lineCount))") auto

definition Fill :: "Lcd \<Rightarrow> int \<Rightarrow> error option res \<times> Lcd" where
  "Fill lcd char =
     (if \<not> active lcd then (Return None, lcd)
      else
        (case getSize lcd of
           (width, height) \<Rightarrow>
             if width * height \<le> 1 then (Return None, lcd)
             else fillLines lcd char 0 width height))"

text \<open>\<^verbatim>\<open>Shutdown\<close> drops the errors of its three last calls.\<close>

definition Shutdown :: "Lcd \<Rightarrow> Lcd" where
  "Shutdown lcd0 =
     (let lcd = Sleep (250 * Millisecond) (lcd0\<lparr>active := False\<rparr>);
          lcd1 = snd (BacklightOff lcd);
          lcd2 = snd (Clear lcd1);
          lcd3 = snd (Home lcd2)
      in lcd3)"

section \<open>Vocabulary of the properties\<close>

text \<open>
  A bus is reliable when it refuses no write, whatever came before. \<open>extend lcd evs\<close>
  is the session \<open>lcd\<close> after the events \<open>evs\<close> happened on its bus, and nothing else
  changed.
\<close>

definition reliable :: "I2C \<Rightarrow> bool" where
  "reliable bus = (\<forall>tr buf. \<not> failing bus tr buf)"

definition extend :: "Lcd \<Rightarrow> event list \<Rightarrow> Lcd" where
  "extend lcd evs = lcd\<lparr>i2c := (i2c lcd)\<lparr>trace := trace (i2c lcd) @ evs\<rparr>\<rparr>"

definition transfers :: "rawData list \<Rightarrow> event list" where
  "transfers seq = concat (map (\<lambda>item. [Wrote [Data item], Slept (Delay item)]) seq)"

text \<open>
  The three raw transfers of one nibble transfer, for the transfer byte \<open>d\<close>, and the
  transfer byte of a nibble: the nibble in the high four bits, the control bits, and the
  backlight bit when the backlight is on. \<open>wire\<close> is what \<^verbatim>\<open>writeByte\<close> puts on a
  reliable bus, written with the expressions of the source.
\<close>

definition strobe :: "Lcd \<Rightarrow> byte \<Rightarrow> event list" where
  "strobe lcd d =
     [Wrote [d], Slept 50000,
      Wrote [d OR PIN_EN], Slept (unat (writeStrobeDelay lcd) * 1000),
      Wrote [d], Slept (unat (resetStrobeDelay lcd) * 1000)]"

definition nibbleByte :: "Lcd \<Rightarrow> byte \<Rightarrow> byte \<Rightarrow> byte" where
  "nibbleByte lcd nibble controlPins =
     (if backlight lcd then (push_bit 4 nibble OR controlPins) OR PIN_BACKLIGHT
      else push_bit 4 nibble OR controlPins)"

definition wire :: "Lcd \<Rightarrow> byte \<Rightarrow> byte \<Rightarrow> event list" where
  "wire lcd d c =
     strobe lcd (if backlight lcd then ((d AND 0xF0) OR c) OR PIN_BACKLIGHT else (d AND 0xF0) OR c) @
     strobe lcd (if backlight lcd then ((push_bit 4 d AND 0xF0) OR c) OR PIN_BACKLIGHT
                 else (push_bit 4 d AND 0xF0) OR c)"

text \<open>
  The layout in the words of the specification: \<open>chunks w k str\<close> cuts \<open>str\<close> into
  consecutive pieces of \<open>w\<close> characters, the last possibly shorter, and stops after
  \<open>k\<close> pieces or when nothing is left.
\<close>

fun chunks :: "nat \<Rightarrow> nat \<Rightarrow> 'a list \<Rightarrow> 'a list list" where
  "chunks w 0 str = []"
| "chunks w (Suc k) str = (if str = [] then [] else take w str # chunks w k (drop w str))"

text \<open>
  Sessions to run the program on: a reliable bus with nothing on it yet, and a session
  in the state the constructor leaves the fields in, for each geometry.
\<close>

definition demo_bus :: I2C where
  "demo_bus = \<lparr>trace = [], failing = (\<lambda>tr buf. False)\<rparr>"

definition broken_bus :: I2C where
  "broken_bus = \<lparr>trace = [], failing = (\<lambda>tr buf. True)\<rparr>"

definition demo_session :: "LcdType \<Rightarrow> Lcd" where
  "demo_session t =
     \<lparr>i2c = demo_bus, backlight = False, lcdType = t,
      writeStrobeDelay = 200, resetStrobeDelay = 30, active = True,
      displayFunction = 0x08, displayControl = 0x04, displayMode = 0x02\<rparr>"

section \<open>Transmissions\<close>

lemma extend_Nil [simp]: "extend lcd [] = lcd"
  by (simp add: extend_def)

lemma extend_extend [simp]: "extend (extend lcd xs) ys = extend lcd (xs @ ys)"
  by (simp add: extend_def)

lemma reliable_extend [simp]: "reliable (i2c (extend lcd evs)) = reliable (i2c lcd)"
  by (simp add: extend_def reliable_def)

lemma extend_fields [simp]:
  "backlight (extend lcd evs) = backlight lcd"
  "lcdType (extend lcd evs) = lcdType lcd"
  "writeStrobeDelay (extend lcd evs) = writeStrobeDelay lcd"
  "resetStrobeDelay (extend lcd evs) = resetStrobeDelay lcd"
  "active (extend lcd evs) = active lcd"
  "displayFunction (extend lcd evs) = displayFunction lcd"
  "displayControl (extend lcd evs) = displayControl lcd"
  "displayMode (extend lcd evs) = displayMode lcd"
  "trace (i2c (extend lcd evs)) = trace (i2c lcd) @ evs"
  "failing (i2c (extend lcd evs)) = failing (i2c lcd)"
  by (simp_all add: extend_def)

lemma Sleep_extend: "Sleep d lcd = extend lcd [Slept d]"
  by (simp add: Sleep_def extend_def)

lemma strobe_extend [simp]: "strobe (extend lcd evs) d = strobe lcd d"
  by (simp add: strobe_def)

text \<open>Whatever the bus does, a transmission changes nothing of the session but the trace.\<close>

lemma writeRawDataSeq_extends: "\<exists>evs. snd (writeRawDataSeq lcd seq) = extend lcd evs"
proof (induction seq arbitrary: lcd)
  case Nil
  have "snd (writeRawDataSeq lcd []) = extend lcd []" by simp
  then show ?case by blast
next
  case (Cons item seq)
  show ?case
  proof (cases "failing (i2c lcd) (trace (i2c lcd)) [Data item]")
    case True
    then have "snd (writeRawDataSeq lcd (item # seq)) = extend lcd [Refused [Data item]]"
      by (simp add: WriteBytes_def extend_def)
    then show ?thesis by blast
  next
    case False
    then have eq: "writeRawDataSeq lcd (item # seq) =
        writeRawDataSeq (extend lcd [Wrote [Data item], Slept (Delay item)]) seq"
      by (simp add: WriteBytes_def extend_def Sleep_def)
    from Cons.IH [of "extend lcd [Wrote [Data item], Slept (Delay item)]"]
    obtain evs where "snd (writeRawDataSeq (extend lcd [Wrote [Data item], Slept (Delay item)]) seq)
        = extend (extend lcd [Wrote [Data item], Slept (Delay item)]) evs" by blast
    with eq show ?thesis by (metis extend_extend)
  qed
qed

lemma writeRawDataSeq_reliable:
  "reliable (i2c lcd) \<Longrightarrow> writeRawDataSeq lcd seq = (None, extend lcd (transfers seq))"
proof (induction seq arbitrary: lcd)
  case Nil
  then show ?case by (simp add: transfers_def)
next
  case (Cons item seq)
  from Cons.prems have nf: "\<not> failing (i2c lcd) (trace (i2c lcd)) [Data item]"
    by (simp add: reliable_def)
  then have eq: "writeRawDataSeq lcd (item # seq) =
      writeRawDataSeq (extend lcd [Wrote [Data item], Slept (Delay item)]) seq"
    by (simp add: WriteBytes_def extend_def Sleep_def)
  show ?case
    unfolding eq
    using Cons.IH [of "extend lcd [Wrote [Data item], Slept (Delay item)]"] Cons.prems
    by (simp add: transfers_def)
qed

lemma writeDataWithStrobe_extends: "\<exists>evs. snd (writeDataWithStrobe lcd d) = extend lcd evs"
  unfolding writeDataWithStrobe_def Let_def by (rule writeRawDataSeq_extends)

lemma writeDataWithStrobe_reliable:
  "reliable (i2c lcd) \<Longrightarrow>
   writeDataWithStrobe lcd d =
     (None, extend lcd (strobe lcd (if backlight lcd then d OR PIN_BACKLIGHT else d)))"
  by (simp add: writeDataWithStrobe_def Let_def writeRawDataSeq_reliable transfers_def strobe_def)

lemma writeByte_extends: "\<exists>evs. snd (writeByte lcd d c) = extend lcd evs"
proof -
  obtain r1 lcd1 where w1: "writeDataWithStrobe lcd ((d AND 0xF0) OR c) = (r1, lcd1)"
    by (cases "writeDataWithStrobe lcd ((d AND 0xF0) OR c)")
  obtain e1 where e1: "lcd1 = extend lcd e1"
    using writeDataWithStrobe_extends [of lcd "(d AND 0xF0) OR c"] w1 by auto
  obtain r2 lcd2 where w2: "writeDataWithStrobe lcd1 ((push_bit 4 d AND 0xF0) OR c) = (r2, lcd2)"
    by (cases "writeDataWithStrobe lcd1 ((push_bit 4 d AND 0xF0) OR c)")
  obtain e2 where e2: "lcd2 = extend lcd1 e2"
    using writeDataWithStrobe_extends [of lcd1 "(push_bit 4 d AND 0xF0) OR c"] w2 by auto
  show ?thesis
  proof (cases r1)
    case (Some err)
    with w1 e1 have "snd (writeByte lcd d c) = extend lcd e1" by (simp add: writeByte_def)
    then show ?thesis by blast
  next
    case None
    with w1 w2 have "snd (writeByte lcd d c) = lcd2"
      by (cases r2) (simp_all add: writeByte_def)
    with e1 e2 have "snd (writeByte lcd d c) = extend lcd (e1 @ e2)" by simp
    then show ?thesis by blast
  qed
qed

lemma writeByte_reliable:
  "reliable (i2c lcd) \<Longrightarrow> writeByte lcd d c = (None, extend lcd (wire lcd d c))"
  by (simp add: writeByte_def writeDataWithStrobe_reliable wire_def)

subsection \<open>Bits of a byte\<close>

lemma F0_push: "(0xF0 :: byte) = push_bit 4 (mask 4)"
  by (simp add: mask_eq_exp_minus_1)

lemma F_mask: "(0x0F :: byte) = mask 4"
  by (simp add: mask_eq_exp_minus_1)

lemma hi_nibble: "(d :: byte) AND 0xF0 = push_bit 4 (drop_bit 4 d)"
  unfolding F0_push by (rule bit_word_eqI) (auto simp: bit_simps)

lemma lo_nibble: "push_bit 4 (d :: byte) AND 0xF0 = push_bit 4 (d AND 0x0F)"
  unfolding F0_push F_mask by (rule bit_word_eqI) (auto simp: bit_simps)

lemma or_and_absorb: "((x :: byte) OR y) AND y = y"
  by (rule bit_word_eqI) (auto simp: bit_simps)

lemma push4_and_4: "push_bit 4 (x :: byte) AND 4 = 0"
proof -
  have "\<not> bit (push_bit 4 x) (2::nat)" by (simp add: bit_simps)
  then have "push_bit 4 x AND 2 ^ 2 = 0"
    by (simp add: and_exp_eq_0_iff_not_bit del: power_numeral)
  then show ?thesis by simp
qed

lemma enable_low:
  "(c :: byte) AND 4 = 0 \<Longrightarrow> (push_bit 4 (x :: byte) OR c) AND 4 = 0"
  "(c :: byte) AND 4 = 0 \<Longrightarrow> ((push_bit 4 (x :: byte) OR c) OR 8) AND 4 = 0"
  by (simp_all add: bit.conj_disj_distrib2 push4_and_4)

lemma wire_nibbles:
  "wire lcd data controlPins =
     strobe lcd (nibbleByte lcd (drop_bit 4 data) controlPins) @
     strobe lcd (nibbleByte lcd (data AND 0x0F) controlPins)"
  by (simp add: wire_def nibbleByte_def hi_nibble lo_nibble)

section \<open>Nibble framing\<close>

text \<open>
  C5, as stated: for every byte value and every control-bit value, the first of the
  three raw transfers of a nibble transfer presents the byte with the enable line low.
  This fails for control bits that hold the enable bit themselves: \<^verbatim>\<open>writeByte\<close> ORs
  the control bits into the transfer byte as they are, so with \<open>PIN_EN\<close> for the
  control bits the value \<open>0x41\<close> goes out as \<open>0x44\<close> three times and then \<open>0x14\<close> three
  times, the enable bit set in all six raw transfers.
\<close>

theorem writeByte_enable_low_counterexample:
  "writeByte (demo_session LCD_16x2) 0x41 PIN_EN =
     (None, extend (demo_session LCD_16x2)
        [Wrote [0x44], Slept 50000, Wrote [0x44], Slept 200000, Wrote [0x44], Slept 30000,
         Wrote [0x14], Slept 50000, Wrote [0x14], Slept 200000, Wrote [0x14], Slept 30000]) \<and>
   (0x44 :: byte) AND PIN_EN = PIN_EN \<and> (0x14 :: byte) AND PIN_EN = PIN_EN"
proof -
  have r: "reliable (i2c (demo_session LCD_16x2))"
    by (simp add: reliable_def demo_session_def demo_bus_def)
  have w: "writeByte (demo_session LCD_16x2) 0x41 PIN_EN =
      (None, extend (demo_session LCD_16x2) (wire (demo_session LCD_16x2) 0x41 PIN_EN))"
    by (rule writeByte_reliable [OF r])
  have v: "wire (demo_session LCD_16x2) 0x41 PIN_EN =
      [Wrote [0x44], Slept 50000, Wrote [0x44], Slept 200000, Wrote [0x44], Slept 30000,
       Wrote [0x14], Slept 50000, Wrote [0x14], Slept 200000, Wrote [0x14], Slept 30000]"
    by (simp add: wire_def strobe_def demo_session_def)
  have b: "(0x44 :: byte) AND PIN_EN = PIN_EN \<and> (0x14 :: byte) AND PIN_EN = PIN_EN"
    by simp
  from w [unfolded v] b show ?thesis by blast
qed

text \<open>
  C5, amended. On a bus that accepts the writes, \<^verbatim>\<open>writeByte\<close> of any byte with any control
  bits returns no error and adds to the trace exactly two nibble transfers and nothing
  else: first the one of the high nibble of the value (\<open>drop_bit 4 data\<close>), then the one
  of the low nibble (\<open>data AND 0x0F\<close>). The transfer byte of a nibble holds the nibble in
  its high four bits, OR'd with the control bits, and OR'd with the backlight bit when
  the backlight is on. A nibble transfer is exactly three raw transfers of that byte:
  the byte itself, followed by a sleep of 50 microseconds; the byte with the enable bit
  set, followed by a sleep of the configured write-strobe delay; the byte itself again,
  followed by a sleep of the configured reset-strobe delay. The enable bit is low in the
  first and the third when the control bits do not hold it, as in every call the
  program makes (control bits \<open>0\<close> or \<open>PIN_RS\<close>).
\<close>

theorem writeByte_nibble_framing:
  assumes "reliable (i2c lcd)"
  shows "writeByte lcd data controlPins =
           (None, extend lcd
              (strobe lcd (nibbleByte lcd (drop_bit 4 data) controlPins) @
               strobe lcd (nibbleByte lcd (data AND 0x0F) controlPins)))
         \<and> (\<forall>d. strobe lcd d =
              [Wrote [d], Slept (50 * Microsecond),
               Wrote [d OR PIN_EN], Slept (unat (writeStrobeDelay lcd) * Microsecond),
               Wrote [d], Slept (unat (resetStrobeDelay lcd) * Microsecond)]
              \<and> (d OR PIN_EN) AND PIN_EN = PIN_EN)
         \<and> (\<forall>nibble. nibbleByte lcd nibble controlPins =
              (if backlight lcd then (push_bit 4 nibble OR controlPins) OR PIN_BACKLIGHT
               else push_bit 4 nibble OR controlPins)
              \<and> (controlPins AND PIN_EN = 0 \<longrightarrow>
                   nibbleByte lcd nibble controlPins AND PIN_EN = 0))"
proof (intro conjI allI impI)
  show "writeByte lcd data controlPins =
           (None, extend lcd
              (strobe lcd (nibbleByte lcd (drop_bit 4 data) controlPins) @
               strobe lcd (nibbleByte lcd (data AND 0x0F) controlPins)))"
    using assms by (simp add: writeByte_reliable wire_nibbles)
next
  fix d
  show "strobe lcd d =
           [Wrote [d], Slept (50 * Microsecond),
            Wrote [d OR PIN_EN], Slept (unat (writeStrobeDelay lcd) * Microsecond),
            Wrote [d], Slept (unat (resetStrobeDelay lcd) * Microsecond)]"
    by (simp add: strobe_def)
  show "(d OR PIN_EN) AND PIN_EN = PIN_EN"
    by (rule or_and_absorb)
next
  fix nibble
  show "nibbleByte lcd nibble controlPins =
              (if backlight lcd then (push_bit 4 nibble OR controlPins) OR PIN_BACKLIGHT
               else push_bit 4 nibble OR controlPins)"
    by (simp add: nibbleByte_def)
  assume "controlPins AND PIN_EN = 0"
  then show "nibbleByte lcd nibble controlPins AND PIN_EN = 0"
    by (simp add: nibbleByte_def enable_low)
qed

theorem writeByte_nibble_framing_witness:
  "reliable (i2c (demo_session LCD_16x2\<lparr>backlight := True\<rparr>)) \<and>
   writeByte (demo_session LCD_16x2\<lparr>backlight := True\<rparr>) 0x41 PIN_RS =
     (None, extend (demo_session LCD_16x2\<lparr>backlight := True\<rparr>)
        [Wrote [0x49], Slept 50000, Wrote [0x4D], Slept 200000, Wrote [0x49], Slept 30000,
         Wrote [0x19], Slept 50000, Wrote [0x1D], Slept 200000, Wrote [0x19], Slept 30000])"
proof -
  have r: "reliable (i2c (demo_session LCD_16x2\<lparr>backlight := True\<rparr>))"
    by (simp add: reliable_def demo_session_def demo_bus_def)
  show ?thesis
    using r writeByte_nibble_framing [OF r, of "0x41" PIN_RS]
    by (simp add: demo_session_def)
qed

section \<open>Commands and register snapshots\<close>

text \<open>A transmission that returns no error has put all of its transfers on the bus.\<close>

lemma writeRawDataSeq_None:
  "writeRawDataSeq lcd seq = (None, lcd') \<Longrightarrow> lcd' = extend lcd (transfers seq)"
proof (induction seq arbitrary: lcd)
  case Nil
  then show ?case by (simp add: transfers_def)
next
  case (Cons item seq)
  show ?case
  proof (cases "failing (i2c lcd) (trace (i2c lcd)) [Data item]")
    case True
    with Cons.prems show ?thesis by (simp add: WriteBytes_def)
  next
    case False
    then have eq: "writeRawDataSeq lcd (item # seq) =
        writeRawDataSeq (extend lcd [Wrote [Data item], Slept (Delay item)]) seq"
      by (simp add: WriteBytes_def extend_def Sleep_def)
    with Cons.prems have "writeRawDataSeq (extend lcd [Wrote [Data item], Slept (Delay item)]) seq
        = (None, lcd')" by simp
    from Cons.IH [OF this] show ?thesis by (simp add: transfers_def)
  qed
qed

lemma writeDataWithStrobe_None:
  "writeDataWithStrobe lcd d = (None, lcd') \<Longrightarrow>
   lcd' = extend lcd (strobe lcd (if backlight lcd then d OR PIN_BACKLIGHT else d))"
  unfolding writeDataWithStrobe_def Let_def
  by (drule writeRawDataSeq_None) (simp add: transfers_def strobe_def)

lemma writeByte_None:
  assumes "writeByte lcd d c = (None, lcd')"
  shows "lcd' = extend lcd (wire lcd d c)"
proof -
  obtain r1 lcd1 where w1: "writeDataWithStrobe lcd ((d AND 0xF0) OR c) = (r1, lcd1)"
    by (cases "writeDataWithStrobe lcd ((d AND 0xF0) OR c)")
  with assms have r1: "r1 = None" by (cases r1) (simp_all add: writeByte_def)
  obtain r2 lcd2 where w2: "writeDataWithStrobe lcd1 ((push_bit 4 d AND 0xF0) OR c) = (r2, lcd2)"
    by (cases "writeDataWithStrobe lcd1 ((push_bit 4 d AND 0xF0) OR c)")
  with assms w1 r1 have r2: "r2 = None" and l2: "lcd' = lcd2"
    by (cases r2; simp add: writeByte_def)+
  from writeDataWithStrobe_None [OF w1 [unfolded r1]] writeDataWithStrobe_None [OF w2 [unfolded r2]] l2
  show ?thesis by (simp add: wire_def)
qed

text \<open>A command followed by its settle delay.\<close>

lemma command_extends:
  "\<exists>evs. snd (case writeByte lcd d c of (err, lcd1) \<Rightarrow> (err, Sleep k lcd1)) = extend lcd evs"
proof -
  obtain evs where "snd (writeByte lcd d c) = extend lcd evs"
    using writeByte_extends by blast
  then have "snd (case writeByte lcd d c of (err, lcd1) \<Rightarrow> (err, Sleep k lcd1))
      = extend lcd (evs @ [Slept k])"
    by (cases "writeByte lcd d c") (simp add: Sleep_extend)
  then show ?thesis by blast
qed

lemma command_None:
  "(case writeByte lcd d c of (err, lcd1) \<Rightarrow> (err, Sleep k lcd1)) = (None, lcd') \<Longrightarrow>
   lcd' = extend lcd (wire lcd d c @ [Slept k])"
  by (cases "writeByte lcd d c") (auto simp: Sleep_extend dest!: writeByte_None)

lemma command_reliable:
  "reliable (i2c lcd) \<Longrightarrow>
   (case writeByte lcd d c of (err, lcd1) \<Rightarrow> (err, Sleep k lcd1)) =
     (None, extend lcd (wire lcd d c @ [Slept k]))"
  by (simp add: writeByte_reliable Sleep_extend)

lemma wire_update [simp]:
  "wire (lcd\<lparr>displayControl := v\<rparr>) d c = wire lcd d c"
  "wire (lcd\<lparr>displayMode := v\<rparr>) d c = wire lcd d c"
  "wire (lcd\<lparr>active := a\<rparr>) d c = wire lcd d c"
  "wire (extend lcd evs) d c = wire lcd d c"
  by (simp_all add: wire_def strobe_def)

text \<open>
  C3, as stated: when the transport reports an error during the transmission of a
  control operation, the stored snapshot is unchanged. This fails: on a bus that refuses
  the first write, \<^verbatim>\<open>DisplayOn\<close> on a session whose display-control snapshot is
  \<open>0x00\<close> returns the transport's error and leaves \<open>0x04\<close> stored.
\<close>

theorem snapshot_kept_on_error_counterexample:
  "fst (DisplayOn (demo_session LCD_16x2\<lparr>i2c := broken_bus, displayControl := 0x00\<rparr>))
     = Some TransportError \<and>
   displayControl (demo_session LCD_16x2\<lparr>i2c := broken_bus, displayControl := 0x00\<rparr>) = 0x00 \<and>
   displayControl (snd (DisplayOn (demo_session LCD_16x2\<lparr>i2c := broken_bus, displayControl := 0x00\<rparr>)))
     = 0x04"
  by (simp add: DisplayOn_def demo_session_def broken_bus_def writeByte_def
      writeDataWithStrobe_def WriteBytes_def Sleep_def)

text \<open>
  C3, amended: every control operation that read-modify-writes a snapshot
  (\<^verbatim>\<open>DisplayOn/Off\<close>, \<^verbatim>\<open>CursorOn/Off\<close>, \<^verbatim>\<open>BlinkOn/Off\<close>,
  \<^verbatim>\<open>LeftRightDisplay\<close>, \<^verbatim>\<open>RightLeftDisplay\<close>) stores the new register value before it
  transmits, so after the call the stored snapshot is the new value whether the
  transport accepted the transmission or reported an error.
\<close>

theorem snapshot_replaced_before_transmission:
  "displayControl (snd (DisplayOn lcd)) = displayControl lcd OR OPT_Enable_Display \<and>
   displayControl (snd (DisplayOff lcd)) = displayControl lcd AND NOT OPT_Enable_Display \<and>
   displayControl (snd (CursorOn lcd)) = displayControl lcd OR OPT_Enable_Cursor \<and>
   displayControl (snd (CursorOff lcd)) = displayControl lcd AND NOT OPT_Enable_Cursor \<and>
   displayControl (snd (BlinkOn lcd)) = displayControl lcd OR OPT_Enable_Blink \<and>
   displayControl (snd (BlinkOff lcd)) = displayControl lcd AND NOT OPT_Enable_Blink \<and>
   displayMode (snd (LeftRightDisplay lcd)) = displayMode lcd OR OPT_EntryLeft \<and>
   displayMode (snd (RightLeftDisplay lcd)) = displayMode lcd AND NOT OPT_EntryLeft"
proof -
  have dc: "displayControl (snd (case writeByte (lcd\<lparr>displayControl := v\<rparr>) d c of
              (err, lcd1) \<Rightarrow> (err, Sleep k lcd1))) = v" for v d c k
    using command_extends [where lcd = "lcd\<lparr>displayControl := v\<rparr>" and d = d and c = c and k = k] by auto
  have dm: "displayMode (snd (case writeByte (lcd\<lparr>displayMode := v\<rparr>) d c of
              (err, lcd1) \<Rightarrow> (err, Sleep k lcd1))) = v" for v d c k
    using command_extends [where lcd = "lcd\<lparr>displayMode := v\<rparr>" and d = d and c = c and k = k] by auto
  show ?thesis
    unfolding DisplayOn_def DisplayOff_def CursorOn_def CursorOff_def BlinkOn_def BlinkOff_def
      LeftRightDisplay_def RightLeftDisplay_def Let_def
    by (simp only: dc dm simp_thms)
qed


section \<open>Control-register persistence\<close>

lemma or3_and:
  "(((x :: byte) OR 2) OR 1) AND 2 = 2" "(((x :: byte) OR 2) OR 1) AND 1 = 1"
  "((8 OR (((x :: byte) OR 2) OR 1)) AND 2) = 2" "((8 OR (((x :: byte) OR 2) OR 1)) AND 1) = 1"
  by (rule bit_word_eqI, auto simp: bit_simps)+

text \<open>
  C9. When \<^verbatim>\<open>CursorOn\<close> and then \<^verbatim>\<open>BlinkOn\<close> both return no error, the stored
  display-control snapshot is the old one with the cursor bit and the blink bit OR'd in,
  so both bits are set in it and in the display-control byte transmitted last,
  \<open>CMD_Display_Control OR\<close> that snapshot; the trace has grown by the command of
  \<^verbatim>\<open>CursorOn\<close>, its settle delay, the command of \<^verbatim>\<open>BlinkOn\<close> carrying that byte,
  and its settle delay.
\<close>

theorem cursor_then_blink:
  assumes "CursorOn lcd = (None, lcd1)" and "BlinkOn lcd1 = (None, lcd2)"
  shows "displayControl lcd2 = (displayControl lcd OR OPT_Enable_Cursor) OR OPT_Enable_Blink \<and>
         displayControl lcd2 AND OPT_Enable_Cursor = OPT_Enable_Cursor \<and>
         displayControl lcd2 AND OPT_Enable_Blink = OPT_Enable_Blink \<and>
         (CMD_Display_Control OR displayControl lcd2) AND OPT_Enable_Cursor = OPT_Enable_Cursor \<and>
         (CMD_Display_Control OR displayControl lcd2) AND OPT_Enable_Blink = OPT_Enable_Blink \<and>
         trace (i2c lcd2) =
           trace (i2c lcd) @
           wire lcd (CMD_Display_Control OR (displayControl lcd OR OPT_Enable_Cursor)) 0 @
           [Slept (2 * Millisecond)] @
           wire lcd (CMD_Display_Control OR displayControl lcd2) 0 @
           [Slept (2 * Millisecond)]"
proof -
  let ?c = "lcd\<lparr>displayControl := displayControl lcd OR OPT_Enable_Cursor\<rparr>"
  from assms(1) have l1: "lcd1 = extend ?c
      (wire ?c (CMD_Display_Control OR displayControl ?c) 0 @ [Slept (2 * Millisecond)])"
    unfolding CursorOn_def Let_def by (rule command_None)
  let ?b = "lcd1\<lparr>displayControl := displayControl lcd1 OR OPT_Enable_Blink\<rparr>"
  from assms(2) have l2: "lcd2 = extend ?b
      (wire ?b (CMD_Display_Control OR displayControl ?b) 0 @ [Slept (2 * Millisecond)])"
    unfolding BlinkOn_def Let_def by (rule command_None)
  have dc1: "displayControl lcd1 = displayControl lcd OR OPT_Enable_Cursor"
    by (subst l1) simp
  have dc2: "displayControl lcd2 = (displayControl lcd OR OPT_Enable_Cursor) OR OPT_Enable_Blink"
    by (subst l2) (simp add: dc1)
  have w1: "wire lcd1 d c = wire lcd d c" for d c
    by (subst l1) simp
  have tr1: "trace (i2c lcd1) = trace (i2c lcd) @
      wire lcd (CMD_Display_Control OR (displayControl lcd OR OPT_Enable_Cursor)) 0 @
      [Slept (2 * Millisecond)]"
    by (subst l1) simp
  have tr2: "trace (i2c lcd2) = trace (i2c lcd1) @
      wire lcd (CMD_Display_Control OR displayControl lcd2) 0 @ [Slept (2 * Millisecond)]"
    by (subst l2) (simp add: w1 dc2 dc1)
  show ?thesis
    by (simp add: dc2 tr2 tr1 or3_and)
qed

theorem cursor_then_blink_witness:
  "CursorOn (demo_session LCD_16x2) = (None, snd (CursorOn (demo_session LCD_16x2))) \<and>
   BlinkOn (snd (CursorOn (demo_session LCD_16x2)))
     = (None, snd (BlinkOn (snd (CursorOn (demo_session LCD_16x2))))) \<and>
   displayControl (snd (BlinkOn (snd (CursorOn (demo_session LCD_16x2))))) = 0x07"
proof -
  have r: "reliable (i2c (demo_session LCD_16x2))"
    by (simp add: reliable_def demo_session_def demo_bus_def)
  have c: "CursorOn (demo_session LCD_16x2) = (None, snd (CursorOn (demo_session LCD_16x2)))"
    using r by (simp add: CursorOn_def Let_def command_reliable)
  have r1: "reliable (i2c (snd (CursorOn (demo_session LCD_16x2))))"
    using r by (simp add: CursorOn_def Let_def command_reliable)
  have b: "BlinkOn (snd (CursorOn (demo_session LCD_16x2)))
      = (None, snd (BlinkOn (snd (CursorOn (demo_session LCD_16x2)))))"
    using r1 by (simp add: BlinkOn_def Let_def command_reliable)
  have "displayControl (demo_session LCD_16x2) = 0x04"
    by (simp add: demo_session_def)
  with c b cursor_then_blink [OF c b] show ?thesis by simp
qed

section \<open>Shutdown gating\<close>

lemma extend_update:
  "(extend lcd evs)\<lparr>backlight := b\<rparr> = extend (lcd\<lparr>backlight := b\<rparr>) evs"
  "(extend lcd evs)\<lparr>active := a\<rparr> = extend (lcd\<lparr>active := a\<rparr>) evs"
  by (simp_all add: extend_def)

lemma Shutdown_extends:
  "\<exists>evs. Shutdown lcd = extend (lcd\<lparr>active := False, backlight := False\<rparr>) evs"
proof -
  let ?l = "Sleep (250 * Millisecond) (lcd\<lparr>active := False\<rparr>)"
  obtain e1 where e1: "snd (BacklightOff ?l) = extend (?l\<lparr>backlight := False\<rparr>) e1"
    unfolding BacklightOff_def using writeByte_extends by blast
  obtain e2 where e2: "snd (Clear (snd (BacklightOff ?l))) = extend (snd (BacklightOff ?l)) e2"
    unfolding Clear_def using command_extends by blast
  obtain e3 where e3: "snd (Home (snd (Clear (snd (BacklightOff ?l)))))
      = extend (snd (Clear (snd (BacklightOff ?l)))) e3"
    unfolding Home_def using command_extends by blast
  have "Shutdown lcd = snd (Home (snd (Clear (snd (BacklightOff ?l)))))"
    by (simp add: Shutdown_def Let_def)
  also have "\<dots> = extend (snd (Clear (snd (BacklightOff ?l)))) e3"
    by (rule e3)
  also have "\<dots> = extend (extend (snd (BacklightOff ?l)) e2) e3"
    by (simp only: e2)
  also have "\<dots> = extend (extend (extend (?l\<lparr>backlight := False\<rparr>) e1) e2) e3"
    by (simp only: e1)
  also have "\<dots> = extend (lcd\<lparr>active := False, backlight := False\<rparr>)
      ([Slept (250 * Millisecond)] @ e1 @ e2 @ e3)"
    by (simp add: Sleep_extend extend_update)
  finally have "Shutdown lcd = extend (lcd\<lparr>active := False, backlight := False\<rparr>)
      ([Slept (250 * Millisecond)] @ e1 @ e2 @ e3)" .
  then show ?thesis by blast
qed

lemma inactive_noop:
  assumes "\<not> active lcd"
  shows "ShowMessage lcd text options = (Return None, lcd)"
    and "SetPosition lcd line pos = (Return None, lcd)"
    and "Fill lcd char = (Return None, lcd)"
  using assms by (simp_all add: ShowMessage_def SetPosition_def Fill_def)

text \<open>
  C8. Whatever the session and whatever the bus does during \<^verbatim>\<open>Shutdown\<close>, the
  session \<^verbatim>\<open>Shutdown\<close> leaves is inactive, and on it \<^verbatim>\<open>ShowMessage\<close>,
  \<^verbatim>\<open>SetPosition\<close> and \<^verbatim>\<open>Fill\<close> return \<^verbatim>\<open>nil\<close> for every argument and leave the
  session as it was, the trace of the bus included: nothing is offered to the transport.
\<close>

theorem shutdown_gating:
  "\<not> active (Shutdown lcd) \<and>
   ShowMessage (Shutdown lcd) text options = (Return None, Shutdown lcd) \<and>
   SetPosition (Shutdown lcd) line pos = (Return None, Shutdown lcd) \<and>
   Fill (Shutdown lcd) char = (Return None, Shutdown lcd)"
proof -
  obtain evs where "Shutdown lcd = extend (lcd\<lparr>active := False, backlight := False\<rparr>) evs"
    using Shutdown_extends by blast
  then have "\<not> active (Shutdown lcd)" by simp
  then show ?thesis by (simp add: inactive_noop)
qed

section \<open>Cursor position\<close>

lemma index_lineOffset:
  "0 \<le> line \<Longrightarrow> line \<le> 3 \<Longrightarrow> index lineOffset line = Return (lineOffset ! nat line)"
  "line < 0 \<or> 3 < line \<Longrightarrow> index lineOffset line = Panic (IndexOutOfRange line 4)"
  by (auto simp: index_def lineOffset_def)

lemma getSize_supported:
  "lcdType lcd = LCD_16x2 \<or> lcdType lcd = LCD_20x4 \<Longrightarrow>
   getSize lcd = (16, 2) \<or> getSize lcd = (20, 4)"
  by (auto simp: getSize_def)

text \<open>
  C4. For an active session of a supported geometry, of width \<open>w\<close> and height \<open>h\<close>:
  \<^verbatim>\<open>SetPosition(line, col)\<close> returns \<^verbatim>\<open>nil\<close> only when \<open>col\<close> is in \<open>[0, w-1]\<close> and
  \<open>line\<close> in \<open>[0, h-1]\<close>, and for such values it does return \<^verbatim>\<open>nil\<close>, having
  transmitted the position-set command, on a bus that accepts the writes. A column
  outside its range gives the error that names the column and \<open>w-1\<close>; a column inside
  with a line outside its range gives the error that names the line and \<open>h-1\<close>. In both
  cases the session comes back as it was: nothing was offered to the transport.
\<close>

theorem SetPosition_bounds:
  assumes "lcdType lcd = LCD_16x2 \<or> lcdType lcd = LCD_20x4"
    and "active lcd" and "getSize lcd = (w, h)"
  shows "(fst (SetPosition lcd line col) = Return None \<longrightarrow>
            0 \<le> col \<and> col \<le> w - 1 \<and> 0 \<le> line \<and> line \<le> h - 1) \<and>
         (reliable (i2c lcd) \<and> 0 \<le> col \<and> col \<le> w - 1 \<and> 0 \<le> line \<and> line \<le> h - 1 \<longrightarrow>
            SetPosition lcd line col =
              (Return None,
               extend lcd (wire lcd (CMD_DDRAM_Set + lineOffset ! nat line + word_of_int col) 0))) \<and>
         (col < 0 \<or> col > w - 1 \<longrightarrow>
            SetPosition lcd line col = (Return (Some (PositionRange col (w - 1))), lcd)) \<and>
         (0 \<le> col \<and> col \<le> w - 1 \<and> (line < 0 \<or> line > h - 1) \<longrightarrow>
            SetPosition lcd line col = (Return (Some (LineRange line (h - 1))), lcd))"
proof -
  from assms(1,3) have wh: "(w = 16 \<and> h = 2) \<or> (w = 20 \<and> h = 4)"
    using getSize_supported [of lcd] by auto
  have pos: "col < 0 \<or> col > w - 1 \<Longrightarrow>
      SetPosition lcd line col = (Return (Some (PositionRange col (w - 1))), lcd)"
    using assms(2,3) wh by (auto simp: SetPosition_def)
  have lin: "0 \<le> col \<and> col \<le> w - 1 \<and> (line < 0 \<or> line > h - 1) \<Longrightarrow>
      SetPosition lcd line col = (Return (Some (LineRange line (h - 1))), lcd)"
    using assms(2,3) wh by (auto simp: SetPosition_def)
  have ok: "reliable (i2c lcd) \<and> 0 \<le> col \<and> col \<le> w - 1 \<and> 0 \<le> line \<and> line \<le> h - 1 \<Longrightarrow>
      SetPosition lcd line col =
        (Return None,
         extend lcd (wire lcd (CMD_DDRAM_Set + lineOffset ! nat line + word_of_int col) 0))"
  proof -
    assume a: "reliable (i2c lcd) \<and> 0 \<le> col \<and> col \<le> w - 1 \<and> 0 \<le> line \<and> line \<le> h - 1"
    with wh have "0 \<le> line" "line \<le> 3" by auto
    then have "index lineOffset line = Return (lineOffset ! nat line)"
      by (rule index_lineOffset)
    with a assms(2,3) wh show ?thesis
      by (auto simp: SetPosition_def writeByte_reliable)
  qed
  have suc: "fst (SetPosition lcd line col) = Return None \<Longrightarrow>
      0 \<le> col \<and> col \<le> w - 1 \<and> 0 \<le> line \<and> line \<le> h - 1"
  proof (rule ccontr)
    assume s: "fst (SetPosition lcd line col) = Return None"
    assume "\<not> (0 \<le> col \<and> col \<le> w - 1 \<and> 0 \<le> line \<and> line \<le> h - 1)"
    then consider "col < 0 \<or> col > w - 1" | "0 \<le> col \<and> col \<le> w - 1 \<and> (line < 0 \<or> line > h - 1)"
      by linarith
    then show False
    proof cases
      case 1
      from pos [OF 1] s show False by simp
    next
      case 2
      from lin [OF 2] s show False by simp
    qed
  qed
  from pos lin ok suc show ?thesis by blast
qed

theorem SetPosition_bounds_witness:
  "SetPosition (demo_session LCD_20x4) 3 19 =
     (Return None, extend (demo_session LCD_20x4) (wire (demo_session LCD_20x4) 0xE7 0)) \<and>
   SetPosition (demo_session LCD_20x4) 3 20 =
     (Return (Some (PositionRange 20 19)), demo_session LCD_20x4) \<and>
   SetPosition (demo_session LCD_16x2) 2 15 =
     (Return (Some (LineRange 2 1)), demo_session LCD_16x2)"
proof -
  have r: "reliable (i2c (demo_session t))" for t
    by (simp add: reliable_def demo_session_def demo_bus_def)
  have a: "active (demo_session t)" for t
    by (simp add: demo_session_def)
  have g20: "getSize (demo_session LCD_20x4) = (20, 4)"
    by (simp add: getSize_def demo_session_def)
  have g16: "getSize (demo_session LCD_16x2) = (16, 2)"
    by (simp add: getSize_def demo_session_def)
  have t20: "lcdType (demo_session LCD_20x4) = LCD_16x2 \<or> lcdType (demo_session LCD_20x4) = LCD_20x4"
    by (simp add: demo_session_def)
  have t16: "lcdType (demo_session LCD_16x2) = LCD_16x2 \<or> lcdType (demo_session LCD_16x2) = LCD_20x4"
    by (simp add: demo_session_def)
  show ?thesis
    using r [of LCD_20x4]
      SetPosition_bounds [OF t20 a g20, of 3 19]
      SetPosition_bounds [OF t20 a g20, of 3 20]
      SetPosition_bounds [OF t16 a g16, of 2 15]
    by (simp add: lineOffset_def)
qed

text \<open>
  C1. With unknown geometry neither bound is checked, and the line indexes the table of
  four offsets as it is: \<^verbatim>\<open>SetPosition(4, 0)\<close> and \<^verbatim>\<open>SetPosition(-1, 0)\<close> on an active
  session of unknown geometry panic at \<^verbatim>\<open>lineOffset[line]\<close>, before anything is
  offered to the transport.
\<close>

theorem SetPosition_unknown_geometry_panics:
  "SetPosition (demo_session LCD_UNKNOWN) 4 0
     = (Panic (IndexOutOfRange 4 4), demo_session LCD_UNKNOWN) \<and>
   SetPosition (demo_session LCD_UNKNOWN) (-1) 0
     = (Panic (IndexOutOfRange (-1) 4), demo_session LCD_UNKNOWN)"
  by (simp add: SetPosition_def demo_session_def getSize_def index_def lineOffset_def)

section \<open>Text layout: the line range and the chunks\<close>

declare startLoop.simps [simp del] endLoop.simps [simp del] splitLoop.simps [simp del]
  padLoop.simps [simp del] showLoop.simps [simp del] fillCols.simps [simp del]
  fillLines.simps [simp del] runes.simps [simp del]

lemma startLoop4:
  "startLoop [a, b, c, d] 0 s = (if a then 0 else if b then 1 else if c then 2 else if d then 3 else s)"
  by (simp add: startLoop.simps [of _ 0] startLoop.simps [of _ 1] startLoop.simps [of _ 2]
      startLoop.simps [of _ 3] startLoop.simps [of _ 4])

lemma endLoop4:
  "endLoop [a, b, c, d] 3 e = (if d then 3 else if c then 2 else if b then 1 else if a then 0 else e)"
  by (simp add: endLoop.simps [of _ 3] endLoop.simps [of _ 2] endLoop.simps [of _ 1]
      endLoop.simps [of _ 0] endLoop.simps [of _ "-1"])

lemma getLineRange_flags:
  "getLineRange lcd options =
     (if options AND SHOW_LINE_1 \<noteq> 0 then 0
      else if options AND SHOW_LINE_2 \<noteq> 0 then 1
      else if options AND SHOW_LINE_3 \<noteq> 0 then 2
      else if options AND SHOW_LINE_4 \<noteq> 0 then 3 else -1,
      if options AND SHOW_LINE_4 \<noteq> 0 then 3
      else if options AND SHOW_LINE_3 \<noteq> 0 then 2
      else if options AND SHOW_LINE_2 \<noteq> 0 then 1
      else if options AND SHOW_LINE_1 \<noteq> 0 then 0 else -1)"
  unfolding getLineRange_def Let_def
  by (simp add: startLoop4 endLoop4)

lemma getLineRange_range:
  "getLineRange lcd options = (s, e) \<Longrightarrow> (s = -1 \<and> e = -1) \<or> (0 \<le> s \<and> s \<le> e \<and> e \<le> 3)"
  unfolding getLineRange_flags by (auto split: if_splits)


lemma chunks_Nil [simp]: "chunks w k [] = []"
  by (cases k) simp_all

lemma length_chunks_le: "length (chunks w k str) \<le> k"
  by (induction k arbitrary: str) simp_all

lemma chunks_empty_iff: "chunks w k str = [] \<longleftrightarrow> k = 0 \<or> str = []"
  by (cases k) simp_all


lemma chunk_lengths:
  "0 < w \<Longrightarrow> s \<in> set (chunks w k str) \<Longrightarrow> 0 < length s \<and> length s \<le> w"
proof (induction k arbitrary: str)
  case 0
  then show ?case by simp
next
  case (Suc k)
  show ?case
  proof (cases "str = []")
    case True
    with Suc.prems show ?thesis by simp
  next
    case False
    with Suc.prems have "s = take w str \<or> s \<in> set (chunks w k (drop w str))" by simp
    then show ?thesis
    proof
      assume "s = take w str"
      with False Suc.prems(1) show ?thesis by (cases str) simp_all
    next
      assume "s \<in> set (chunks w k (drop w str))"
      with Suc.IH [OF Suc.prems(1)] show ?thesis by blast
    qed
  qed
qed

lemma chunks_full:
  "0 < w \<Longrightarrow> k * w \<le> length str \<Longrightarrow>
   length (chunks w k str) = k \<and> (\<forall>s \<in> set (chunks w k str). length s = w)"
proof (induction k arbitrary: str)
  case 0
  then show ?case by simp
next
  case (Suc k)
  from Suc.prems have w: "w \<le> length str" by simp
  with Suc.prems(1) have ne: "str \<noteq> []" by auto
  from Suc.prems(2) have rest: "k * w \<le> length (drop w str)" by simp
  have tk: "length (take w str) = w" using w by simp
  from Suc.IH [OF Suc.prems(1) rest] ne tk show ?case by simp
qed

lemma splitLoop_chunks:
  "0 < w \<Longrightarrow> k = nat (n + 1 - i) \<Longrightarrow> i \<le> n + 1 \<Longrightarrow>
   splitLoop i n w str lines =
     Return (drop (k * nat w) str, lines @ chunks (nat w) k str)"
proof (induction k arbitrary: i str lines)
  case 0
  then have "\<not> i \<le> n" by simp
  then show ?case by (subst splitLoop.simps) simp
next
  case (Suc k)
  then have le: "i \<le> n" and k: "k = nat (n + 1 - (i + 1))" and le': "i + 1 \<le> n + 1" by auto
  show ?case
  proof (cases "str = []")
    case True
    with le show ?thesis by (subst splitLoop.simps) simp
  next
    case False
    let ?j = "if w > int (length str) then int (length str) else w"
    from Suc.prems(1) have st: "slice_to str ?j = Return (take (nat w) str)"
      by (auto simp: slice_to_def)
    from Suc.prems(1) have sf: "slice_from str ?j = Return (drop (nat w) str)"
      by (auto simp: slice_from_def)
    have "splitLoop i n w str lines =
        splitLoop (i + 1) n w (drop (nat w) str) (lines @ [take (nat w) str])"
      using le False by (subst splitLoop.simps) (simp add: Let_def st sf)
    also have "\<dots> = Return (drop (k * nat w) (drop (nat w) str),
        (lines @ [take (nat w) str]) @ chunks (nat w) k (drop (nat w) str))"
      by (rule Suc.IH [OF Suc.prems(1) k le'])
    finally show ?thesis using False by (simp add: ac_simps)
  qed
qed

lemma Repeat_blank: "0 \<le> c \<Longrightarrow> Repeat '' '' c = Return (replicate (nat c) CHR '' '')"
proof -
  have "concat (replicate m '' '') = replicate m CHR '' ''" for m
    by (induction m) simp_all
  then show "0 \<le> c \<Longrightarrow> Repeat '' '' c = Return (replicate (nat c) CHR '' '')"
    by (simp add: Repeat_def)
qed

lemma padLoop_blanks:
  "0 \<le> w \<Longrightarrow> m = nat (n + 1 - k) \<Longrightarrow> k \<le> n + 1 \<Longrightarrow>
   padLoop k n w lines = Return (lines @ replicate m (replicate (nat w) CHR '' ''))"
proof (induction m arbitrary: k lines)
  case 0
  then have "\<not> k \<le> n" by simp
  then show ?case by (subst padLoop.simps) simp
next
  case (Suc m)
  then have le: "k \<le> n" and m: "m = nat (n + 1 - (k + 1))" and le': "k + 1 \<le> n + 1" by auto
  have "padLoop k n w lines = padLoop (k + 1) n w (lines @ [replicate (nat w) CHR '' ''])"
    using le Suc.prems(1) by (subst padLoop.simps) (simp add: Repeat_blank)
  also have "\<dots> = Return ((lines @ [replicate (nat w) CHR '' '']) @
      replicate m (replicate (nat w) CHR '' ''))"
    by (rule Suc.IH [OF Suc.prems(1) m le'])
  finally show ?case by (simp add: replicate_append_same)
qed


lemma update_last: "xs \<noteq> [] \<Longrightarrow> xs[length xs - Suc 0 := v] = butlast xs @ [v]"
  by (induction xs rule: rev_induct) (simp_all add: list_update_append)

lemma index_last: "xs \<noteq> [] \<Longrightarrow> index xs (int (length xs) - 1) = Return (last xs)"
  by (cases xs rule: rev_cases) (simp_all add: index_def nth_append)

lemma index_Nil: "index [] i = Panic (IndexOutOfRange i 0)"
  by (simp add: index_def)

lemma slice_to_butlast:
  "l \<noteq> [] \<Longrightarrow> slice_to l (int (length l) - 1) = Return (butlast l)"
proof -
  assume "l \<noteq> []"
  then have "0 < length l" by simp
  then have "nat (int (length l) - 1) = length l - 1" and "0 \<le> int (length l) - 1" by auto
  then show ?thesis by (simp add: slice_to_def butlast_conv_take)
qed

lemma splitWithin_layout:
  assumes w: "0 < w" and se: "startLine \<le> endLine"
    and K: "K = nat (endLine - startLine + 1)" and segs: "segs = chunks (nat w) K str"
  shows "splitWithin w startLine endLine str options =
     (if length str > K * nat w then
        (if options AND SHOW_ELIPSE_IF_NOT_FIT \<noteq> 0
         then Return (butlast segs @ [butlast (last segs) @ ''~''])
         else Return segs)
      else if options AND SHOW_BLANK_PADDING \<noteq> 0 then
        (if str = [] then Panic (IndexOutOfRange (-1) 0)
         else Return (butlast segs @
                [last segs @ replicate (nat w - length (last segs)) CHR '' ''] @
                replicate (K - length segs) (replicate (nat w) CHR '' '')))
      else Return segs)"
proof -
  from se K have Kpos: "0 < K" by simp
  from w have nw: "0 < nat w" by simp
  have loop: "splitLoop 0 (endLine - startLine) w str [] = Return (drop (K * nat w) str, segs)"
    using splitLoop_chunks [OF w, of K "endLine - startLine" 0 str "[]"] se K segs by simp
  have len_le: "length segs \<le> K" unfolding segs by (rule length_chunks_le)
  show ?thesis
  proof (cases "length str > K * nat w")
    case True
    then have rest: "length (drop (K * nat w) str) > 0" by simp
    from True have "K * nat w \<le> length str" by simp
    from chunks_full [OF nw this] have lenK: "length segs = K"
      and all: "\<forall>s \<in> set segs. length s = nat w" unfolding segs by auto
    from lenK Kpos have ne: "segs \<noteq> []" by auto
    then have "last segs \<in> set segs" by simp
    with all nw have lne: "last segs \<noteq> []" by auto
    show ?thesis
    proof (cases "options AND SHOW_ELIPSE_IF_NOT_FIT \<noteq> 0")
      case e: True
      have "nat (int (length segs) - 1) = length segs - Suc 0" by linarith
      with True e rest ne lne show ?thesis
        unfolding splitWithin_def loop
        by (simp add: Let_def index_last slice_to_butlast update_last del: SHOW_ELIPSE_IF_NOT_FIT_def)
    next
      case e: False
      with True rest show ?thesis
        unfolding splitWithin_def loop by (simp del: SHOW_ELIPSE_IF_NOT_FIT_def)
    qed
  next
    case False
    then have rest: "drop (K * nat w) str = []" by simp
    show ?thesis
    proof (cases "options AND SHOW_BLANK_PADDING \<noteq> 0")
      case p: False
      with False rest show ?thesis
        unfolding splitWithin_def loop by (simp del: SHOW_BLANK_PADDING_def)
    next
      case p: True
      show ?thesis
      proof (cases "str = []")
        case True
        then have "segs = []" unfolding segs by simp
        with True p show ?thesis
          unfolding splitWithin_def loop
          by (simp add: Let_def index_Nil del: SHOW_BLANK_PADDING_def)
      next
        case ne_str: False
        with Kpos have ne: "segs \<noteq> []" unfolding segs by (simp add: chunks_empty_iff)
        then have "last segs \<in> set segs" by simp
        from chunk_lengths [OF nw this [unfolded segs]]
        have ll: "length (last segs) \<le> nat w" unfolding segs by simp
        then have rep: "Repeat '' '' (w - int (length (last segs)))
            = Return (replicate (nat w - length (last segs)) CHR '' '')"
          using w by (subst Repeat_blank) (auto simp: nat_diff_distrib')
        let ?lines = "butlast segs @ [last segs @ replicate (nat w - length (last segs)) CHR '' '']"
        have upd: "segs[nat (int (length segs) - 1) :=
            last segs @ replicate (nat w - length (last segs)) CHR '' ''] = ?lines"
        proof -
          have "nat (int (length segs) - 1) = length segs - Suc 0" by linarith
          then show ?thesis by (simp only: update_last [OF ne])
        qed
        have m: "K - length segs = nat (endLine - startLine + 1 - (int (length segs) - 1 + 1))"
          using K len_le se by linarith
        have le: "int (length segs) - 1 + 1 \<le> endLine - startLine + 1"
          using K len_le se by linarith
        have pad: "padLoop (int (length segs) - 1 + 1) (endLine - startLine) w ?lines
            = Return (?lines @ replicate (K - length segs) (replicate (nat w) CHR '' ''))"
          using w by (intro padLoop_blanks [OF _ m le]) simp
        then have pad': "padLoop (int (length segs)) (endLine - startLine) w ?lines
            = Return (?lines @ replicate (K - length segs) (replicate (nat w) CHR '' ''))"
          by simp
        from False rest p ne_str show ?thesis
          unfolding splitWithin_def loop
          by (simp add: Let_def index_last [OF ne] rep upd pad' del: SHOW_BLANK_PADDING_def)
      qed
    qed
  qed
qed

section \<open>Text layout: the segments\<close>

lemma splitText_supported:
  assumes "lcdType lcd = LCD_16x2 \<or> lcdType lcd = LCD_20x4"
    and "getSize lcd = (w, h)" and "getLineRange lcd options = (startLine, endLine)"
    and "startLine \<noteq> -1"
  shows "splitText lcd str options = splitWithin w startLine endLine str options"
    and "0 < w" and "startLine \<le> endLine"
proof -
  from getSize_supported [OF assms(1)] assms(2) show w: "0 < w" by auto
  from getLineRange_range [OF assms(3)] assms(4) show se: "startLine \<le> endLine" by auto
  from getLineRange_range [OF assms(3)] assms(4) have "endLine \<noteq> -1" by auto
  with w assms show "splitText lcd str options = splitWithin w startLine endLine str options"
    by (simp add: splitText_def)
qed

lemma splitText_layout:
  assumes "lcdType lcd = LCD_16x2 \<or> lcdType lcd = LCD_20x4"
    and "getSize lcd = (w, h)" and "getLineRange lcd options = (startLine, endLine)"
    and "startLine \<noteq> -1"
    and "K = nat (endLine - startLine + 1)" and "segs = chunks (nat w) K str"
  shows "splitText lcd str options =
     (if length str > K * nat w then
        (if options AND SHOW_ELIPSE_IF_NOT_FIT \<noteq> 0
         then Return (butlast segs @ [butlast (last segs) @ ''~''])
         else Return segs)
      else if options AND SHOW_BLANK_PADDING \<noteq> 0 then
        (if str = [] then Panic (IndexOutOfRange (-1) 0)
         else Return (butlast segs @
                [last segs @ replicate (nat w - length (last segs)) CHR '' ''] @
                replicate (K - length segs) (replicate (nat w) CHR '' '')))
      else Return segs)"
  unfolding splitText_supported(1) [OF assms(1-4)]
  by (rule splitWithin_layout [OF splitText_supported(2,3) [OF assms(1-4)] assms(5,6)])








text \<open>
  C2. For both supported geometries, \<^verbatim>\<open>splitText\<close> of the empty string with a line flag
  and the padding option set does not return the empty list: the padding branch reads
  \<^verbatim>\<open>lines[len(lines)-1]\<close> of the empty list and panics with index \<open>-1\<close>.
\<close>

theorem splitText_empty_padding_panics:
  "splitText (demo_session LCD_16x2) [] (SHOW_LINE_1 OR SHOW_BLANK_PADDING)
     = Panic (IndexOutOfRange (-1) 0) \<and>
   splitText (demo_session LCD_20x4) [] (SHOW_LINE_1 OR SHOW_BLANK_PADDING)
     = Panic (IndexOutOfRange (-1) 0)"
proof -
  have a: "splitText (demo_session LCD_16x2) [] (SHOW_LINE_1 OR SHOW_BLANK_PADDING)
     = Panic (IndexOutOfRange (-1) 0)"
    by (subst splitText_layout [where w = 16 and h = 2 and startLine = 0 and endLine = 0])
       (simp_all add: demo_session_def getSize_def getLineRange_flags)
  have b: "splitText (demo_session LCD_20x4) [] (SHOW_LINE_1 OR SHOW_BLANK_PADDING)
     = Panic (IndexOutOfRange (-1) 0)"
    by (subst splitText_layout [where w = 20 and h = 4 and startLine = 0 and endLine = 0])
       (simp_all add: demo_session_def getSize_def getLineRange_flags)
  from a b show ?thesis by blast
qed

section \<open>Showing the empty text\<close>

lemma getSize_cases:
  "getSize lcd = (w, h) \<Longrightarrow>
   (w = 16 \<and> h = 2 \<and> lcdType lcd = LCD_16x2) \<or>
   (w = 20 \<and> h = 4 \<and> lcdType lcd = LCD_20x4) \<or>
   (w = -1 \<and> h = -1)"
  by (auto simp: getSize_def split: if_splits)

lemma SetPosition_transmits:
  assumes "active lcd" and "getSize lcd = (w, h)" and "reliable (i2c lcd)"
    and "w = -1 \<or> (0 \<le> pos \<and> pos \<le> w - 1)"
    and "h = -1 \<or> line \<le> h - 1" and "0 \<le> line" and "line \<le> 3"
  shows "SetPosition lcd line pos =
     (Return None,
      extend lcd (wire lcd (CMD_DDRAM_Set + lineOffset ! nat line + word_of_int pos) 0))"
proof -
  have "index lineOffset line = Return (lineOffset ! nat line)"
    using assms(6,7) by (rule index_lineOffset)
  with assms show ?thesis
    by (auto simp: SetPosition_def writeByte_reliable)
qed

lemma SetPosition_line_error:
  assumes "active lcd" and "getSize lcd = (w, h)"
    and "w = -1 \<or> (0 \<le> pos \<and> pos \<le> w - 1)"
    and "h \<noteq> -1" and "line < 0 \<or> line > h - 1"
  shows "SetPosition lcd line pos = (Return (Some (LineRange line (h - 1))), lcd)"
  using assms by (auto simp: SetPosition_def)

lemma splitText_empty:
  assumes "getLineRange lcd options = (s, e)" and "getSize lcd = (w, h)"
    and "s = -1 \<or> h = -1 \<or> options AND SHOW_BLANK_PADDING = 0"
  shows "splitText lcd [] options = Return []"
proof (cases "s = -1 \<or> h = -1")
  case True
  with getSize_cases [OF assms(2)] have "s = -1 \<or> w = -1" by auto
  with assms(1,2) show ?thesis by (auto simp: splitText_def)
next
  case False
  with assms(3) have p: "options AND SHOW_BLANK_PADDING = 0" by blast
  from False getSize_cases [OF assms(2)]
  have sup: "lcdType lcd = LCD_16x2 \<or> lcdType lcd = LCD_20x4" by auto
  from False have "s \<noteq> -1" by simp
  from splitText_layout [OF sup assms(2) assms(1) this refl refl, of "[]"] p
  show ?thesis by (simp del: SHOW_BLANK_PADDING_def)
qed

lemma showLoop_Nil:
  "showLoop lcd [] s e 0 =
     (case (if s \<noteq> -1 \<and> e \<noteq> -1 then SetPosition lcd s 0 else (Return None, lcd)) of
        (Panic p, lcd1) \<Rightarrow> (Panic p, lcd1)
      | (Return (Some err), lcd1) \<Rightarrow> (Return (Some err), lcd1)
      | (Return None, lcd1) \<Rightarrow> (Panic (IndexOutOfRange 0 0), lcd1))"
  by (subst showLoop.simps) (auto simp: index_Nil split: prod.split res.split option.split)

lemma ShowMessage_empty:
  assumes "active lcd" and "getLineRange lcd options = (s, e)" and "getSize lcd = (w, h)"
    and "s = -1 \<or> h = -1 \<or> options AND SHOW_BLANK_PADDING = 0"
  shows "ShowMessage lcd [] options =
     (case (if s \<noteq> -1 \<and> e \<noteq> -1 then SetPosition lcd s 0 else (Return None, lcd)) of
        (Panic p, lcd1) \<Rightarrow> (Panic p, lcd1)
      | (Return (Some err), lcd1) \<Rightarrow> (Return (Some err), lcd1)
      | (Return None, lcd1) \<Rightarrow> (Panic (IndexOutOfRange 0 0), lcd1))"
  using assms(1,2) splitText_empty [OF assms(2,3,4)]
  by (simp add: ShowMessage_def showLoop_Nil)

text \<open>
  C10, as stated: for every active session and every options value, \<^verbatim>\<open>ShowMessage\<close>
  of the empty text reaches the read of \<^verbatim>\<open>lines[0]\<close> and so is not total. This fails:
  on a 16x2 session with only the flag of line 3 set, the position of the first flagged
  line is checked before \<^verbatim>\<open>lines[i]\<close> is read, and \<^verbatim>\<open>ShowMessage\<close> returns the
  validation error of \<^verbatim>\<open>SetPosition\<close>, with the session unchanged.
\<close>

theorem ShowMessage_empty_total_counterexample:
  "ShowMessage (demo_session LCD_16x2) [] SHOW_LINE_3
     = (Return (Some (LineRange 2 1)), demo_session LCD_16x2)"
proof -
  have a: "active (demo_session LCD_16x2)" by (simp add: demo_session_def)
  have g: "getSize (demo_session LCD_16x2) = (16, 2)"
    by (simp add: getSize_def demo_session_def)
  have r: "getLineRange (demo_session LCD_16x2) SHOW_LINE_3 = (2, 2)"
    by (simp add: getLineRange_flags)
  have e: "SetPosition (demo_session LCD_16x2) 2 0
      = (Return (Some (LineRange 2 (2 - 1))), demo_session LCD_16x2)"
    by (rule SetPosition_line_error [OF a g]) simp_all
  have "ShowMessage (demo_session LCD_16x2) [] SHOW_LINE_3 =
     (case SetPosition (demo_session LCD_16x2) 2 0 of
        (Panic p, lcd1) \<Rightarrow> (Panic p, lcd1)
      | (Return (Some err), lcd1) \<Rightarrow> (Return (Some err), lcd1)
      | (Return None, lcd1) \<Rightarrow> (Panic (IndexOutOfRange 0 0), lcd1))"
    by (subst ShowMessage_empty [OF a r g]) simp_all
  then show ?thesis unfolding e by simp
qed

text \<open>
  C10, amended. On an active session, \<^verbatim>\<open>ShowMessage\<close> of the empty text panics at the
  read of \<^verbatim>\<open>lines[0]\<close> (index 0, length 0) when no line flag is set, with nothing
  transmitted; and, when a line flag is set, after the position command of the first
  flagged line went out on a bus that accepts the writes, provided the geometry is
  unknown, or the first flagged line is below the height of the display and the padding
  option is not set. When the first flagged line is at or beyond the height of a
  supported geometry and the padding option is not set, it returns the validation error
  for the line instead, and nothing is transmitted.
\<close>

theorem ShowMessage_empty_panics:
  assumes "active lcd" and "getLineRange lcd options = (startLine, endLine)"
    and "getSize lcd = (w, h)"
  shows "(startLine = -1 \<longrightarrow>
            ShowMessage lcd [] options = (Panic (IndexOutOfRange 0 0), lcd)) \<and>
         (startLine \<noteq> -1 \<and> reliable (i2c lcd) \<and>
          (h = -1 \<or> (startLine \<le> h - 1 \<and> options AND SHOW_BLANK_PADDING = 0)) \<longrightarrow>
            ShowMessage lcd [] options =
              (Panic (IndexOutOfRange 0 0),
               extend lcd (wire lcd (CMD_DDRAM_Set + lineOffset ! nat startLine) 0))) \<and>
         (startLine \<noteq> -1 \<and> h \<noteq> -1 \<and> startLine > h - 1 \<and>
          options AND SHOW_BLANK_PADDING = 0 \<longrightarrow>
            ShowMessage lcd [] options = (Return (Some (LineRange startLine (h - 1))), lcd))"
proof (intro conjI impI)
  assume "startLine = -1"
  then show "ShowMessage lcd [] options = (Panic (IndexOutOfRange 0 0), lcd)"
    by (subst ShowMessage_empty [OF assms]) simp_all
next
  assume a: "startLine \<noteq> -1 \<and> reliable (i2c lcd) \<and>
          (h = -1 \<or> (startLine \<le> h - 1 \<and> options AND SHOW_BLANK_PADDING = 0))"
  with getLineRange_range [OF assms(2)]
  have rng: "0 \<le> startLine" "startLine \<le> 3" "endLine \<noteq> -1" by auto
  from a getSize_cases [OF assms(3)] have "w = -1 \<or> (0 \<le> (0::int) \<and> 0 \<le> w - 1)" by auto
  from SetPosition_transmits [OF assms(1,3) _ this _ rng(1,2)] a
  have sp: "SetPosition lcd startLine 0 =
      (Return None, extend lcd (wire lcd (CMD_DDRAM_Set + lineOffset ! nat startLine) 0))"
    by auto
  from a have "startLine = -1 \<or> h = -1 \<or> options AND SHOW_BLANK_PADDING = 0" by blast
  from ShowMessage_empty [OF assms this] a rng(3) sp
  show "ShowMessage lcd [] options =
      (Panic (IndexOutOfRange 0 0),
       extend lcd (wire lcd (CMD_DDRAM_Set + lineOffset ! nat startLine) 0))"
    by simp
next
  assume a: "startLine \<noteq> -1 \<and> h \<noteq> -1 \<and> startLine > h - 1 \<and>
          options AND SHOW_BLANK_PADDING = 0"
  with getLineRange_range [OF assms(2)] have rng: "endLine \<noteq> -1" by auto
  from a getSize_cases [OF assms(3)] have "w = -1 \<or> (0 \<le> (0::int) \<and> 0 \<le> w - 1)" by auto
  from SetPosition_line_error [OF assms(1,3) this] a
  have sp: "SetPosition lcd startLine 0 = (Return (Some (LineRange startLine (h - 1))), lcd)"
    by auto
  from a have "startLine = -1 \<or> h = -1 \<or> options AND SHOW_BLANK_PADDING = 0" by blast
  from ShowMessage_empty [OF assms this] a rng sp
  show "ShowMessage lcd [] options = (Return (Some (LineRange startLine (h - 1))), lcd)"
    by simp
qed

theorem ShowMessage_empty_panics_witness:
  "ShowMessage (demo_session LCD_16x2) [] (SHOW_ELIPSE_IF_NOT_FIT OR SHOW_BLANK_PADDING)
     = (Panic (IndexOutOfRange 0 0), demo_session LCD_16x2) \<and>
   ShowMessage (demo_session LCD_UNKNOWN) [] (SHOW_LINE_2 OR SHOW_BLANK_PADDING)
     = (Panic (IndexOutOfRange 0 0),
        extend (demo_session LCD_UNKNOWN) (wire (demo_session LCD_UNKNOWN) 0xC0 0)) \<and>
   ShowMessage (demo_session LCD_20x4) [] SHOW_LINE_4
     = (Panic (IndexOutOfRange 0 0),
        extend (demo_session LCD_20x4) (wire (demo_session LCD_20x4) 0xD4 0)) \<and>
   ShowMessage (demo_session LCD_16x2) [] SHOW_LINE_4
     = (Return (Some (LineRange 3 1)), demo_session LCD_16x2)"
proof -
  have a: "active (demo_session t)" for t by (simp add: demo_session_def)
  have rel: "reliable (i2c (demo_session t))" for t
    by (simp add: reliable_def demo_session_def demo_bus_def)
  have g16: "getSize (demo_session LCD_16x2) = (16, 2)"
    by (simp add: getSize_def demo_session_def)
  have g20: "getSize (demo_session LCD_20x4) = (20, 4)"
    by (simp add: getSize_def demo_session_def)
  have gu: "getSize (demo_session LCD_UNKNOWN) = (-1, -1)"
    by (simp add: getSize_def demo_session_def)
  have r0: "getLineRange lcd (SHOW_ELIPSE_IF_NOT_FIT OR SHOW_BLANK_PADDING) = (-1, -1)" for lcd
    by (simp add: getLineRange_flags)
  have r1: "getLineRange lcd (SHOW_LINE_2 OR SHOW_BLANK_PADDING) = (1, 1)" for lcd
    by (simp add: getLineRange_flags)
  have r3: "getLineRange lcd SHOW_LINE_4 = (3, 3)" for lcd
    by (simp add: getLineRange_flags)
  show ?thesis
    using rel
      ShowMessage_empty_panics [OF a r0 g16]
      ShowMessage_empty_panics [OF a r1 gu]
      ShowMessage_empty_panics [OF a r3 g20]
      ShowMessage_empty_panics [OF a r3 g16]
    by (simp add: lineOffset_def)
qed

end
